theory Spec2Isabelle
  imports Main "HOL-Library.Log_Nat"
begin

section \<open>JavaScript numbers\<close>

text \<open>
  Every \<open>number\<close> of the adapter is an IEEE 754 binary64 value. A finite value is kept as
  the rational it denotes; negative zero, the two infinities (\<open>Infinity True\<close> is the
  negative one) and NaN are separate values. Each arithmetic operation computes the exact
  rational result and rounds it to the nearest binary64 value, ties to even, as
  ECMAScript's \<open>Number::multiply\<close>, \<open>Number::divide\<close> and \<open>Number::add\<close> do.
\<close>

datatype number = NaN | Infinity bool | NegZero | Finite rat

definition ilog2 :: "rat \<Rightarrow> int" where
  \<comment> \<open>for \<open>0 < q\<close>: the exponent \<open>e\<close> with \<open>2^e \<le> q < 2^(e+1)\<close>\<close>
  "ilog2 q = (let (p, d) = quotient_of q; e = bitlen p - bitlen d
              in if power_int 2 e \<le> q then e else e - 1)"

definition roundTiesToEven :: "rat \<Rightarrow> int" where
  "roundTiesToEven x = (let f = \<lfloor>x\<rfloor>; r = x - of_int f
     in if r < 1 / 2 then f else if 1 / 2 < r then f + 1 else if even f then f else f + 1)"

definition ulp :: "rat \<Rightarrow> rat" where
  \<comment> \<open>spacing of the binary64 values around \<open>q\<close>: 53 significant bits, least exponent -1022\<close>
  "ulp q = power_int 2 (max (ilog2 q) (- 1022) - 52)"

definition roundMagnitude :: "rat \<Rightarrow> rat" where
  "roundMagnitude q = (if q = 0 then 0 else of_int (roundTiesToEven (q / ulp q)) * ulp q)"

definition makeNumber :: "bool \<Rightarrow> rat \<Rightarrow> number" where
  \<comment> \<open>the binary64 value nearest to the exact magnitude \<open>q\<close>, with sign bit \<open>s\<close>\<close>
  "makeNumber s q = (let m = roundMagnitude q
     in if power_int 2 1024 \<le> m then Infinity s
        else if m = 0 then (if s then NegZero else Finite 0)
        else Finite (if s then - m else m))"

definition literal :: "rat \<Rightarrow> number" where
  \<comment> \<open>a decimal literal of the source or of a JSON response\<close>
  "literal q = makeNumber (q < 0) \<bar>q\<bar>"

fun negative :: "number \<Rightarrow> bool" where
  "negative NaN = False"
| "negative (Infinity s) = s"
| "negative NegZero = True"
| "negative (Finite q) = (q < 0)"

fun val :: "number \<Rightarrow> rat" where
  "val (Finite q) = q"
| "val _ = 0"

fun isInfinite :: "number \<Rightarrow> bool" where
  "isInfinite (Infinity s) = True"
| "isInfinite _ = False"

fun isZero :: "number \<Rightarrow> bool" where
  "isZero NegZero = True"
| "isZero (Finite q) = (q = 0)"
| "isZero _ = False"

definition multiply :: "number \<Rightarrow> number \<Rightarrow> number" where
  "multiply a b =
     (if a = NaN \<or> b = NaN then NaN
      else if isInfinite a \<or> isInfinite b then
        (if isZero a \<or> isZero b then NaN else Infinity (negative a \<noteq> negative b))
      else makeNumber (negative a \<noteq> negative b) (\<bar>val a\<bar> * \<bar>val b\<bar>))"

definition divide_number :: "number \<Rightarrow> number \<Rightarrow> number" where
  "divide_number a b =
     (if a = NaN \<or> b = NaN then NaN
      else if isInfinite a then
        (if isInfinite b then NaN else Infinity (negative a \<noteq> negative b))
      else if isInfinite b then makeNumber (negative a \<noteq> negative b) 0
      else if isZero b then
        (if isZero a then NaN else Infinity (negative a \<noteq> negative b))
      else makeNumber (negative a \<noteq> negative b) (\<bar>val a\<bar> / \<bar>val b\<bar>))"

definition add :: "number \<Rightarrow> number \<Rightarrow> number" where
  "add a b =
     (if a = NaN \<or> b = NaN then NaN
      else if isInfinite a then
        (if isInfinite b \<and> negative a \<noteq> negative b then NaN else a)
      else if isInfinite b then b
      else let r = val a + val b
           in if r = 0 then (if negative a \<and> negative b then NegZero else Finite 0)
              else makeNumber (r < 0) \<bar>r\<bar>)"

fun ge :: "number \<Rightarrow> number \<Rightarrow> bool" where
  \<comment> \<open>\<open>a >= b\<close>: false as soon as one side is NaN\<close>
  "ge NaN b = False"
| "ge a NaN = False"
| "ge (Infinity s) (Infinity t) = (t \<or> \<not> s)"
| "ge (Infinity s) b = (\<not> s)"
| "ge a (Infinity t) = t"
| "ge a b = (val b \<le> val a)"

fun truthy :: "number option \<Rightarrow> bool" where
  \<comment> \<open>ToBoolean of an optional number: \<open>undefined\<close>, \<open>+0\<close>, \<open>-0\<close> and NaN are falsy\<close>
  "truthy None = False"
| "truthy (Some NaN) = False"
| "truthy (Some (Infinity s)) = True"
| "truthy (Some NegZero) = False"
| "truthy (Some (Finite q)) = (q \<noteq> 0)"

fun toNumber :: "number option \<Rightarrow> number" where
  \<comment> \<open>ToNumber of a property that may be absent (\<open>undefined\<close> becomes NaN)\<close>
  "toNumber None = NaN"
| "toNumber (Some x) = x"

section \<open>Data model of the wallet-provider contract\<close>

datatype Network = MAINNET | TESTNET | SIGNET | RETEST

fun networkName :: "Network \<Rightarrow> string" where
  "networkName MAINNET = ''mainnet''"
| "networkName TESTNET = ''testnet''"
| "networkName SIGNET = ''signet''"
| "networkName RETEST = ''regtest''"

record Fees =
  fastestFee :: number
  halfHourFee :: number
  hourFee :: number
  economyFee :: number
  minimumFee :: number

text \<open>The object \<open>getUtxos\<close> builds for each output: the four properties it assigns.\<close>

record UTXO =
  txid :: string
  vout :: number
  valueSatoshis :: number  \<comment> \<open>the property \<open>value\<close>\<close>
  scriptPubKey :: string

datatype error = Error string  \<comment> \<open>a thrown error and its \<open>message\<close>\<close>

section \<open>The RPC client and the node behind it\<close>

text \<open>
  The adapter holds an untyped client of the \<open>bitcoin-core\<close> package. Each call the
  adapter makes is a field of the record below: it takes the arguments the adapter passes
  and the state \<open>'n\<close> of the node, and gives back the response or the thrown error,
  with the node's next state. The responses carry the properties the adapter reads.
\<close>

record WalletInfoResult =
  walletname :: string
  txcount :: number

record ReceivedByAddress =
  received_address :: string
  received_label :: string
  received_amount :: number

record ProcessedPsbt =
  psbt :: string      \<comment> \<open>base64\<close>
  complete :: bool

record SmartFee =
  feerate :: "number option"  \<comment> \<open>absent when the node has no estimate\<close>

record Unspent =
  unspent_txid :: string
  unspent_vout :: number
  unspent_amount :: number   \<comment> \<open>whole coins\<close>
  unspent_scriptPubKey :: string

datatype arg = Num number | Bool bool | Str string

record 'n Client =
  rpc_getWalletInfo :: "'n \<Rightarrow> (error + WalletInfoResult) \<times> 'n"
  rpc_listReceivedByAddress :: "arg list \<Rightarrow> 'n \<Rightarrow> (error + ReceivedByAddress list) \<times> 'n"
  rpc_getNewAddress :: "string \<Rightarrow> string \<Rightarrow> 'n \<Rightarrow> (error + string) \<times> 'n"
  rpc_walletProcessPsbt :: "string \<Rightarrow> 'n \<Rightarrow> (error + ProcessedPsbt) \<times> 'n"
  rpc_estimateSmartFee :: "number \<Rightarrow> 'n \<Rightarrow> (error + SmartFee) \<times> 'n"
  rpc_listUnspent :: "number \<Rightarrow> number \<Rightarrow> string list \<Rightarrow> 'n \<Rightarrow> (error + Unspent list) \<times> 'n"

record ClientOptions =
  opt_wallet :: string
  opt_network :: string
  opt_username :: string
  opt_password :: string
  opt_host :: string
  opt_port :: number

text \<open>\<open>Buffer.from(x, 'hex').toString('base64')\<close> and its inverse, of the Node.js runtime.\<close>

record Buffer =
  hexToBase64 :: "string \<Rightarrow> string"
  base64ToHex :: "string \<Rightarrow> string"

text \<open>What a method call can observe and change: the node and the console.\<close>

datatype logged = Text string | Info WalletInfoResult | Processed ProcessedPsbt

datatype console_call = console_log "logged list" | console_error "logged list"

record 'n world =
  node :: 'n
  console :: "console_call list"

section \<open>BitcoinCoreWallet\<close>

record 'n BitcoinCoreWallet =
  client :: "'n Client"

text \<open>A value a method resolves to where the declared type is \<open>this\<close>.\<close>

datatype 'n object = This "'n BitcoinCoreWallet" | Response WalletInfoResult

definition convertBtcKvBToSatoshiPerByte :: "number \<Rightarrow> number" where
  "convertBtcKvBToSatoshiPerByte btcPerKvB =
     (let satoshiPerKB = multiply btcPerKvB (Finite 100000000);
          satoshiPerByte = divide_number satoshiPerKB (Finite 1000)
      in satoshiPerByte)"

definition new_BitcoinCoreWallet ::
  "(ClientOptions \<Rightarrow> 'n Client) \<Rightarrow> string \<Rightarrow> string \<Rightarrow> number \<Rightarrow> string \<Rightarrow> string \<Rightarrow> string
     \<Rightarrow> 'n BitcoinCoreWallet" where
  \<comment> \<open>the constructor; \<open>new_Client\<close> is the constructor of the client package\<close>
  "new_BitcoinCoreWallet new_Client walletName host port username password network =
     \<lparr>client = new_Client \<lparr>opt_wallet = walletName, opt_network = network,
        opt_username = username, opt_password = password, opt_host = host, opt_port = port\<rparr>\<rparr>"

definition connectWallet :: "'n BitcoinCoreWallet \<Rightarrow> 'n world \<Rightarrow> (error + 'n object) \<times> 'n world" where
  "connectWallet w s =
     (case rpc_getWalletInfo (client w) (node s) of
        (Inr walletInfo, n') \<Rightarrow>
          (Inr (Response walletInfo),
           \<lparr>node = n', console = console s @ [console_log [Info walletInfo]]\<rparr>)
      | (Inl (Error message), n') \<Rightarrow>
          (Inl (Error (''Failed to connect to Bitcoin Core: '' @ message)), s\<lparr>node := n'\<rparr>))"

definition getNetwork :: "'n BitcoinCoreWallet \<Rightarrow> Network" where
  "getNetwork w = RETEST"

definition getAddress :: "'n BitcoinCoreWallet \<Rightarrow> 'n world \<Rightarrow> (error + string) \<times> 'n world" where
  "getAddress w s =
     (let label = ''primary'' in
      case rpc_listReceivedByAddress (client w) [] (node s) of
        (Inl e, n') \<Rightarrow> (Inl e, s\<lparr>node := n'\<rparr>)
      | (Inr addresses, n') \<Rightarrow>
          if length addresses > 0 \<and> received_address (addresses ! 0) \<noteq> []
          then (Inr (received_address (addresses ! 0)), s\<lparr>node := n'\<rparr>)
          else (case rpc_getNewAddress (client w) label ''bech32'' n' of
                  (Inl e, n'') \<Rightarrow> (Inl e, s\<lparr>node := n''\<rparr>)
                | (Inr newAddress, n'') \<Rightarrow>
                    (Inr newAddress,
                     \<lparr>node = n'',
                      console = console s @ [console_log [Text ''Taproot Address:'', Text newAddress]]\<rparr>)))"

definition getNewAddress :: "'n BitcoinCoreWallet \<Rightarrow> 'n world \<Rightarrow> (error + string) \<times> 'n world" where
  "getNewAddress w s =
     (let label = ''primary'' in
      case rpc_listReceivedByAddress (client w)
             [Num (Finite 0), Bool True, Bool True, Str label] (node s) of
        (Inl e, n') \<Rightarrow> (Inl e, s\<lparr>node := n'\<rparr>)
      | (Inr addresses, n') \<Rightarrow>
          if length addresses > 0 \<and> received_address (addresses ! 0) \<noteq> []
          then (Inr (received_address (addresses ! 0)), s\<lparr>node := n'\<rparr>)
          else (case rpc_getNewAddress (client w) label ''bech32m'' n' of
                  (Inl e, n'') \<Rightarrow> (Inl e, s\<lparr>node := n''\<rparr>)
                | (Inr newAddress, n'') \<Rightarrow>
                    (Inr newAddress,
                     \<lparr>node = n'',
                      console = console s @ [console_log [Text ''Taproot Address:'', Text newAddress]]\<rparr>)))"

definition signPsbt ::
  "Buffer \<Rightarrow> 'n BitcoinCoreWallet \<Rightarrow> string \<Rightarrow> 'n world \<Rightarrow> (error + string) \<times> 'n world" where
  "signPsbt B w psbtHex s =
     (let c1 = console s @ [console_log [Text ''Signing PSBT with hex:'', Text psbtHex]] in
      case rpc_walletProcessPsbt (client w) (hexToBase64 B psbtHex) (node s) of
        (Inl e, n') \<Rightarrow> (Inl e, \<lparr>node = n', console = c1\<rparr>)
      | (Inr signedPsbt, n') \<Rightarrow>
          (let c2 = c1 @ [console_log [Text ''Signed PSBT:'', Processed signedPsbt]];
               c3 = (if \<not> complete signedPsbt
                     then c2 @ [console_error [Text ''PSBT signing incomplete'']] else c2)
           in (Inr (base64ToHex B (psbt signedPsbt)), \<lparr>node = n', console = c3\<rparr>)))"

fun signPsbts_loop ::
  "Buffer \<Rightarrow> 'n BitcoinCoreWallet \<Rightarrow> string list \<Rightarrow> string list \<Rightarrow> 'n world
     \<Rightarrow> (error + string list) \<times> 'n world" where
  "signPsbts_loop B w signedPsbts [] s = (Inr signedPsbts, s)"
| "signPsbts_loop B w signedPsbts (psbtHex # rest) s =
     (case signPsbt B w psbtHex s of
        (Inl e, s') \<Rightarrow> (Inl e, s')
      | (Inr signedPsbt, s') \<Rightarrow> signPsbts_loop B w (signedPsbts @ [signedPsbt]) rest s')"

definition signPsbts ::
  "Buffer \<Rightarrow> 'n BitcoinCoreWallet \<Rightarrow> string list \<Rightarrow> 'n world \<Rightarrow> (error + string list) \<times> 'n world" where
  "signPsbts B w psbtsHexes s = signPsbts_loop B w [] psbtsHexes s"

definition getNetworkFees :: "'n BitcoinCoreWallet \<Rightarrow> 'n world \<Rightarrow> (error + Fees) \<times> 'n world" where
  "getNetworkFees w s =
     (case rpc_estimateSmartFee (client w) (Finite 6) (node s) of
        (Inl e, n') \<Rightarrow> (Inl e, s\<lparr>node := n'\<rparr>)
      | (Inr result, n') \<Rightarrow>
          (let satoshis = convertBtcKvBToSatoshiPerByte (toNumber (feerate result))
           in (Inr \<lparr>fastestFee = Finite 1000, halfHourFee = satoshis, hourFee = satoshis,
                    economyFee = satoshis, minimumFee = satoshis\<rparr>,
               s\<lparr>node := n'\<rparr>)))"

definition toUTXO :: "Unspent \<Rightarrow> UTXO" where
  \<comment> \<open>the arrow function mapped over the listing\<close>
  "toUTXO utxo =
     \<lparr>txid = unspent_txid utxo, vout = unspent_vout utxo,
      valueSatoshis = multiply (unspent_amount utxo) (Finite 100000000),
      scriptPubKey = unspent_scriptPubKey utxo\<rparr>"

fun accumulate :: "number \<Rightarrow> number \<Rightarrow> UTXO list \<Rightarrow> UTXO list \<Rightarrow> number \<times> UTXO list" where
  \<comment> \<open>the \<open>for\<close> loop of \<open>getUtxos\<close>: running total, result so far, outputs still to visit\<close>
  "accumulate amount totalAmount result [] = (totalAmount, result)"
| "accumulate amount totalAmount result (utxo # rest) =
     (let totalAmount' = add totalAmount (valueSatoshis utxo); result' = result @ [utxo]
      in if ge totalAmount' amount then (totalAmount', result')
         else accumulate amount totalAmount' result' rest)"

definition getUtxos ::
  "'n BitcoinCoreWallet \<Rightarrow> string \<Rightarrow> number option \<Rightarrow> 'n world \<Rightarrow> (error + UTXO list) \<times> 'n world" where
  "getUtxos w address amount s =
     (case rpc_listUnspent (client w) (Finite 0) (Finite 9999999) [address] (node s) of
        (Inl e, n') \<Rightarrow> (Inl e, s\<lparr>node := n'\<rparr>)
      | (Inr utxos, n') \<Rightarrow>
          (let filteredUtxos = map toUTXO utxos in
           if truthy amount then
             (let (totalAmount, result) = accumulate (toNumber amount) (Finite 0) [] filteredUtxos
              in (Inr (if ge totalAmount (toNumber amount) then result else []), s\<lparr>node := n'\<rparr>))
           else (Inr filteredUtxos, s\<lparr>node := n'\<rparr>)))"

section \<open>The world a batch of signatures leaves\<close>

text \<open>The world once \<open>signPsbt\<close> has run on each element of a sequence, in order.\<close>

fun worldAfter :: "Buffer \<Rightarrow> 'n BitcoinCoreWallet \<Rightarrow> string list \<Rightarrow> 'n world \<Rightarrow> 'n world" where
  "worldAfter B w [] s = s"
| "worldAfter B w (psbtHex # rest) s = worldAfter B w rest (snd (signPsbt B w psbtHex s))"

section \<open>A node for the examples\<close>

text \<open>
  The examples run the adapter against a small regtest node. It lists the addresses that
  have received funds, hands out an address it has never given before on each
  \<open>getnewaddress\<close>, holds no signing key (a PSBT comes back unchanged and incomplete, an
  empty one is rejected), estimates 0.00001 coin per kvB and lists its unspent outputs.
\<close>

record Node =
  funded :: "ReceivedByAddress list"
  issued :: nat
  unspent :: "Unspent list"

definition freshAddress :: "nat \<Rightarrow> string" where
  "freshAddress k = ''bcrt1qnew'' @ replicate k (CHR ''x'')"

definition regtestClient :: "ClientOptions \<Rightarrow> Node Client" where
  "regtestClient options =
     \<lparr>rpc_getWalletInfo = (\<lambda>n. (Inr \<lparr>walletname = opt_wallet options, txcount = Finite 0\<rparr>, n)),
      rpc_listReceivedByAddress = (\<lambda>args n. (Inr (funded n), n)),
      rpc_getNewAddress = (\<lambda>label addressType n. (Inr (freshAddress (issued n)), n\<lparr>issued := Suc (issued n)\<rparr>)),
      rpc_walletProcessPsbt = (\<lambda>b n. if b = [] then (Inl (Error ''TX decode failed''), n)
                                      else (Inr \<lparr>psbt = b, complete = False\<rparr>, n)),
      rpc_estimateSmartFee = (\<lambda>target n. (Inr \<lparr>feerate = Some (literal (1 / 100000))\<rparr>, n)),
      rpc_listUnspent = (\<lambda>minconf maxconf addresses n. (Inr (unspent n), n))\<rparr>"

definition regtestWallet :: "Node BitcoinCoreWallet" where
  "regtestWallet =
     new_BitcoinCoreWallet regtestClient ''goat'' ''127.0.0.1'' (Finite 18443) ''user'' ''pass'' ''mainnet''"

definition plainBuffer :: Buffer where
  \<comment> \<open>the examples write a PSBT the same way in both encodings\<close>
  "plainBuffer = \<lparr>hexToBase64 = (\<lambda>x. x), base64ToHex = (\<lambda>x. x)\<rparr>"

definition fundedNode :: Node where
  "fundedNode =
     \<lparr>funded = [\<lparr>received_address = ''bcrt1qsavings'', received_label = ''savings'',
                  received_amount = Finite 1\<rparr>,
                 \<lparr>received_address = ''bcrt1qprimary'', received_label = ''primary'',
                  received_amount = Finite 2\<rparr>],
      issued = 0,
      unspent = [\<lparr>unspent_txid = ''aa'', unspent_vout = Finite 0,
                   unspent_amount = Finite (1 / 2), unspent_scriptPubKey = ''0014aa''\<rparr>,
                  \<lparr>unspent_txid = ''bb'', unspent_vout = Finite 1,
                   unspent_amount = Finite (1 / 4), unspent_scriptPubKey = ''0014bb''\<rparr>,
                  \<lparr>unspent_txid = ''cc'', unspent_vout = Finite 0,
                   unspent_amount = Finite (1 / 8), unspent_scriptPubKey = ''0014cc''\<rparr>]\<rparr>"

definition emptyNode :: Node where
  \<comment> \<open>a wallet that has received nothing yet\<close>
  "emptyNode = \<lparr>funded = [], issued = 0, unspent = []\<rparr>"

text \<open>
  Two wallets whose first output is 0.29 coin, the amount as the node's JSON answer
  writes it; the second wallet also holds an output of one coin.
\<close>

definition oneOutputNode :: Node where
  "oneOutputNode =
     \<lparr>funded = [], issued = 0,
      unspent = [\<lparr>unspent_txid = ''dd'', unspent_vout = Finite 0,
                   unspent_amount = literal (29 / 100), unspent_scriptPubKey = ''0014dd''\<rparr>]\<rparr>"

definition twoOutputNode :: Node where
  "twoOutputNode =
     \<lparr>funded = [], issued = 0,
      unspent = [\<lparr>unspent_txid = ''dd'', unspent_vout = Finite 0,
                   unspent_amount = literal (29 / 100), unspent_scriptPubKey = ''0014dd''\<rparr>,
                  \<lparr>unspent_txid = ''ee'', unspent_vout = Finite 0,
                   unspent_amount = Finite 1, unspent_scriptPubKey = ''0014ee''\<rparr>]\<rparr>"

definition start :: "'n \<Rightarrow> 'n world" where
  "start n = \<lparr>node = n, console = []\<rparr>"

section \<open>Rounding to binary64 is monotone and idempotent\<close>

lemma quotient_of_pos:
  assumes "0 < q" "quotient_of q = (p, d)"
  shows "0 < p" "0 < d" "q = of_int p / of_int d"
  using assms
    apply (metis zero_less_Fract_iff quotient_of_denom_pos' Fract_of_int_quotient quotient_of_div snd_conv)
  using assms quotient_of_denom_pos apply blast
  using assms quotient_of_div by blast

lemma bitlen_rat_bounds:
  assumes "0 < (p::int)"
  shows "power_int 2 (bitlen p - 1) \<le> (of_int p :: rat)" "(of_int p :: rat) < power_int 2 (bitlen p)"
proof -
  from bitlen_bounds[OF assms] have a: "2 ^ nat (bitlen p - 1) \<le> p" and b: "p < 2 ^ nat (bitlen p)"
    by auto
  have ge1: "1 \<le> bitlen p" using assms by (auto simp: bitlen_alt_def)
  have "(2::rat) ^ nat (bitlen p - 1) \<le> of_int p"
    using a of_int_le_iff[of "2 ^ nat (bitlen p - 1)" p, where 'a = rat] by simp
  then show "power_int 2 (bitlen p - 1) \<le> (of_int p :: rat)"
    using ge1 by (simp add: power_int_def)
  have "(of_int p :: rat) < 2 ^ nat (bitlen p)"
    using b of_int_less_iff[of p "2 ^ nat (bitlen p)", where 'a = rat] by simp
  then show "(of_int p :: rat) < power_int 2 (bitlen p)"
    using ge1 by (simp add: power_int_def)
qed

lemma pow2_pos [simp]: "0 < power_int (2::rat) e"
  by (simp add: zero_less_power_int)

lemma pow2_Suc: "power_int (2::rat) (e + 1) = 2 * power_int 2 e"
  by (simp add: power_int_add)

lemma pow2_mono: "a \<le> b \<Longrightarrow> power_int (2::rat) a \<le> power_int 2 b"
  by (simp add: power_int_increasing)

lemma pow2_less_iff: "power_int (2::rat) a < power_int 2 b \<longleftrightarrow> a < b"
proof
  assume l: "power_int (2::rat) a < power_int 2 b"
  show "a < b"
  proof (rule ccontr)
    assume "\<not> a < b"
    then have "power_int (2::rat) b \<le> power_int 2 a" by (simp add: power_int_increasing)
    with l show False by simp
  qed
next
  assume "a < b"
  then show "power_int (2::rat) a < power_int 2 b" by (simp add: power_int_strict_increasing)
qed

lemma ilog2_bounds:
  assumes "0 < q"
  shows "power_int 2 (ilog2 q) \<le> q" "q < power_int 2 (ilog2 q + 1)"
proof -
  obtain p d where pd: "quotient_of q = (p, d)" by (cases "quotient_of q")
  note pos = quotient_of_pos[OF assms pd]
  let ?e = "bitlen p - bitlen d"
  have P: "power_int 2 (bitlen p - 1) \<le> (of_int p :: rat)" "(of_int p :: rat) < power_int 2 (bitlen p)"
    using bitlen_rat_bounds[OF pos(1)] by auto
  have D: "power_int 2 (bitlen d - 1) \<le> (of_int d :: rat)" "(of_int d :: rat) < power_int 2 (bitlen d)"
    using bitlen_rat_bounds[OF pos(2)] by auto
  have dpos: "0 < (of_int d :: rat)" using pos(2) by simp
  have up: "q < power_int 2 (?e + 1)"
  proof -
    have "q * of_int d = of_int p" using pos(3) dpos by simp
    then have "q * power_int 2 (bitlen d - 1) \<le> of_int p"
      using D(1) assms by (metis mult_left_mono less_imp_le)
    then have "q * power_int 2 (bitlen d - 1) < power_int 2 (bitlen p)" using P(2) by simp
    moreover have "power_int (2::rat) (bitlen p) = power_int 2 (?e + 1) * power_int 2 (bitlen d - 1)"
      by (simp flip: power_int_add)
    ultimately show ?thesis by (simp)
  qed
  have lo: "power_int 2 (?e - 1) < q"
  proof -
    have "q * of_int d = of_int p" using pos(3) dpos by simp
    then have "of_int p < q * power_int 2 (bitlen d)"
      using D(2) assms by (metis mult_strict_left_mono)
    then have "power_int 2 (bitlen p - 1) < q * power_int 2 (bitlen d)" using P(1) by simp
    moreover have "power_int (2::rat) (bitlen p - 1) = power_int 2 (?e - 1) * power_int 2 (bitlen d)"
      by (simp flip: power_int_add)
    ultimately show ?thesis by simp
  qed
  show "power_int 2 (ilog2 q) \<le> q"
    using lo by (auto simp: ilog2_def pd Let_def)
  show "q < power_int 2 (ilog2 q + 1)"
    using up by (auto simp: ilog2_def pd Let_def not_le)
qed

lemma ilog2_unique:
  assumes "0 < q" "power_int 2 e \<le> q" "q < power_int 2 (e + 1)"
  shows "ilog2 q = e"
proof -
  have "power_int (2::rat) e < power_int 2 (ilog2 q + 1)"
    using assms(2) ilog2_bounds(2)[OF assms(1)] by simp
  then have a: "e < ilog2 q + 1" by (simp only: pow2_less_iff)
  have "power_int (2::rat) (ilog2 q) < power_int 2 (e + 1)"
    using assms(3) ilog2_bounds(1)[OF assms(1)] by simp
  then have "ilog2 q < e + 1" by (simp only: pow2_less_iff)
  with a show ?thesis by simp
qed

lemma ilog2_mono:
  assumes "0 < x" "x \<le> y"
  shows "ilog2 x \<le> ilog2 y"
proof -
  have "power_int (2::rat) (ilog2 x) < power_int 2 (ilog2 y + 1)"
    using ilog2_bounds(1)[OF assms(1)] ilog2_bounds(2)[of y] assms by simp
  then have "ilog2 x < ilog2 y + 1" by (simp only: pow2_less_iff)
  then show ?thesis by simp
qed

lemma roundTiesToEven_of_int [simp]: "roundTiesToEven (of_int n) = n"
  by (simp add: roundTiesToEven_def)

lemma roundTiesToEven_range:
  "\<lfloor>x\<rfloor> \<le> roundTiesToEven x" "roundTiesToEven x \<le> \<lfloor>x\<rfloor> + 1"
  by (auto simp: roundTiesToEven_def Let_def)

lemma roundTiesToEven_mono:
  assumes "x \<le> y"
  shows "roundTiesToEven x \<le> roundTiesToEven y"
proof (cases "\<lfloor>x\<rfloor> = \<lfloor>y\<rfloor>")
  case True
  then have "x - of_int \<lfloor>x\<rfloor> \<le> y - of_int \<lfloor>y\<rfloor>" using assms by simp
  then show ?thesis using True by (auto simp: roundTiesToEven_def Let_def)
next
  case False
  then have "\<lfloor>x\<rfloor> + 1 \<le> \<lfloor>y\<rfloor>" using assms floor_mono[OF assms] by linarith
  then show ?thesis
    using roundTiesToEven_range(2)[of x] roundTiesToEven_range(1)[of y] by linarith
qed

lemma ulp_pos [simp]: "0 < ulp q"
  by (simp add: ulp_def)

lemma ulp_nonneg [simp]: "0 \<le> ulp q"
  using ulp_pos[of q] by (rule less_imp_le)

lemma ulp_neq0 [simp]: "ulp q \<noteq> 0"
  by (simp add: ulp_def)

lemma pow2_split53: "power_int (2::rat) (e + 1) = of_int (2 ^ 53) * power_int 2 (e - 52)"
proof -
  have "power_int (2::rat) (e + 1) = power_int 2 (53 + (e - 52))"
    by (rule arg_cong[where f = "power_int 2"]) simp
  also have "\<dots> = power_int 2 53 * power_int 2 (e - 52)" by (rule power_int_add) simp
  finally show ?thesis by simp
qed

lemma pow2_split52: "power_int (2::rat) e = of_int (2 ^ 52) * power_int 2 (e - 52)"
proof -
  have "power_int (2::rat) e = power_int 2 (52 + (e - 52))"
    by (rule arg_cong[where f = "power_int 2"]) simp
  also have "\<dots> = power_int 2 52 * power_int 2 (e - 52)" by (rule power_int_add) simp
  finally show ?thesis by simp
qed

lemma roundTiesToEven_le_int: "x \<le> of_int n \<Longrightarrow> roundTiesToEven x \<le> n"
  using roundTiesToEven_mono[of x "of_int n"] by simp

lemma roundTiesToEven_ge_int: "of_int n \<le> x \<Longrightarrow> n \<le> roundTiesToEven x"
  using roundTiesToEven_mono[of "of_int n" x] by simp

lemma significand_upper:
  assumes "0 < x"
  shows "roundTiesToEven (x / ulp x) \<le> 2 ^ 53"
proof -
  let ?e = "max (ilog2 x) (- 1022)"
  have "x < power_int 2 (ilog2 x + 1)" using ilog2_bounds(2)[OF assms] .
  also have "\<dots> \<le> power_int 2 (?e + 1)" by (rule pow2_mono) simp
  also have "\<dots> = of_int (2 ^ 53) * ulp x" unfolding ulp_def by (rule pow2_split53)
  finally have "x / ulp x \<le> of_int (2 ^ 53)" by (simp add: pos_divide_le_eq)
  then show ?thesis by (rule roundTiesToEven_le_int)
qed

lemma significand_lower:
  assumes "0 < x" "- 1022 \<le> ilog2 x"
  shows "2 ^ 52 \<le> roundTiesToEven (x / ulp x)"
proof -
  have e: "max (ilog2 x) (- 1022) = ilog2 x" using assms(2) by simp
  have "of_int (2 ^ 52) * ulp x = power_int 2 (ilog2 x)"
    unfolding ulp_def e by (rule pow2_split52[symmetric])
  also have "\<dots> \<le> x" using ilog2_bounds(1)[OF assms(1)] .
  finally have "of_int (2 ^ 52) \<le> x / ulp x" by (simp add: pos_le_divide_eq)
  then show ?thesis by (rule roundTiesToEven_ge_int)
qed

lemma significand_nonneg:
  assumes "0 \<le> x"
  shows "0 \<le> roundTiesToEven (x / ulp x)"
proof -
  have "of_int 0 \<le> x / ulp x" using assms by simp
  then show ?thesis by (rule roundTiesToEven_ge_int)
qed

lemma roundMagnitude_nonneg: "0 \<le> x \<Longrightarrow> 0 \<le> roundMagnitude x"
  using significand_nonneg[of x] by (simp add: roundMagnitude_def)

lemma roundMagnitude_upper:
  assumes "0 < x"
  shows "roundMagnitude x \<le> power_int 2 (max (ilog2 x) (- 1022) + 1)"
proof -
  have "of_int (roundTiesToEven (x / ulp x)) \<le> (of_int (2 ^ 53) :: rat)"
    using significand_upper[OF assms] of_int_le_iff by blast
  then have "roundMagnitude x \<le> of_int (2 ^ 53) * ulp x"
    using assms by (simp add: roundMagnitude_def)
  then show ?thesis unfolding ulp_def pow2_split53[symmetric] .
qed

lemma roundMagnitude_lower:
  assumes "0 < x" "- 1022 \<le> ilog2 x"
  shows "power_int 2 (ilog2 x) \<le> roundMagnitude x"
proof -
  have e: "max (ilog2 x) (- 1022) = ilog2 x" using assms(2) by simp
  have "(of_int (2 ^ 52) :: rat) \<le> of_int (roundTiesToEven (x / ulp x))"
    using significand_lower[OF assms] of_int_le_iff by blast
  then have "of_int (2 ^ 52) * ulp x \<le> roundMagnitude x"
    using assms by (simp add: roundMagnitude_def)
  then show ?thesis unfolding ulp_def e pow2_split52[symmetric] .
qed

lemma roundMagnitude_mono:
  assumes "0 \<le> x" "x \<le> y"
  shows "roundMagnitude x \<le> roundMagnitude y"
proof (cases "x = 0")
  case True
  then show ?thesis using roundMagnitude_nonneg[of y] assms by (simp add: roundMagnitude_def)
next
  case False
  then have x: "0 < x" and y: "0 < y" using assms by auto
  let ?ex = "max (ilog2 x) (- 1022)" and ?ey = "max (ilog2 y) (- 1022)"
  have le: "?ex \<le> ?ey" using ilog2_mono[OF x assms(2)] by simp
  show ?thesis
  proof (cases "?ex = ?ey")
    case True
    then have u: "ulp x = ulp y" by (simp add: ulp_def)
    have "x / ulp y \<le> y / ulp y" using assms(2) by (simp add: divide_right_mono)
    then have "roundTiesToEven (x / ulp y) \<le> roundTiesToEven (y / ulp y)"
      by (rule roundTiesToEven_mono)
    then have "(of_int (roundTiesToEven (x / ulp y)) :: rat) \<le> of_int (roundTiesToEven (y / ulp y))"
      by simp
    then show ?thesis using x y u by (simp add: roundMagnitude_def)
  next
    case False
    then have lt: "?ex + 1 \<le> ?ey" using le by simp
    then have ey: "?ey = ilog2 y" "- 1022 \<le> ilog2 y" by auto
    have "roundMagnitude x \<le> power_int 2 (?ex + 1)" by (rule roundMagnitude_upper[OF x])
    also have "\<dots> \<le> power_int 2 (ilog2 y)" using lt ey(1) by (simp add: pow2_mono)
    also have "\<dots> \<le> roundMagnitude y" by (rule roundMagnitude_lower[OF y ey(2)])
    finally show ?thesis .
  qed
qed

lemma roundMagnitude_idem:
  assumes "0 \<le> x"
  shows "roundMagnitude (roundMagnitude x) = roundMagnitude x"
proof (cases "roundMagnitude x = 0")
  case True
  then show ?thesis by (simp add: roundMagnitude_def)
next
  case False
  then have x: "0 < x" using assms by (auto simp: roundMagnitude_def split: if_splits)
  let ?e = "max (ilog2 x) (- 1022)"
  let ?n = "roundTiesToEven (x / ulp x)"
  let ?r = "roundMagnitude x"
  have r: "?r = of_int ?n * ulp x" using x by (simp add: roundMagnitude_def)
  have rpos: "0 < ?r" using False roundMagnitude_nonneg[OF assms] by simp
  have n_le: "?n \<le> 2 ^ 53" by (rule significand_upper[OF x])
  show ?thesis
  proof (cases "?n = 2 ^ 53")
    case True
    then have rv: "?r = power_int 2 (?e + 1)" using r by (simp add: ulp_def pow2_split53)
    have "ilog2 ?r = ?e + 1"
      by (rule ilog2_unique) (simp_all add: rv pow2_less_iff)
    then have "ulp ?r = power_int 2 (?e + 1 - 52)" by (simp add: ulp_def)
    then have "?r = of_int (2 ^ 52) * ulp ?r" using rv pow2_split52[of "?e + 1"] by simp
    then have "?r / ulp ?r = of_int (2 ^ 52)" by (simp add: nonzero_divide_eq_eq)
    then have "roundTiesToEven (?r / ulp ?r) = 2 ^ 52" by (simp only: roundTiesToEven_of_int)
    then have "roundMagnitude ?r = of_int (2 ^ 52) * ulp ?r"
      using rpos by (simp add: roundMagnitude_def[of ?r])
    with \<open>?r = of_int (2 ^ 52) * ulp ?r\<close> show ?thesis by simp
  next
    case False
    then have n_lt: "?n < 2 ^ 53" using n_le by simp
    then have "(of_int ?n :: rat) < of_int (2 ^ 53)" using of_int_less_iff by blast
    then have "?r < of_int (2 ^ 53) * ulp x" unfolding r by (simp add: mult_strict_right_mono)
    then have r_up: "?r < power_int 2 (?e + 1)" unfolding ulp_def pow2_split53[symmetric] .
    have "power_int 2 (ilog2 ?r) < (power_int 2 (?e + 1) :: rat)"
      using ilog2_bounds(1)[OF rpos] r_up by simp
    then have up: "ilog2 ?r \<le> ?e" by (simp only: pow2_less_iff)
    have e: "max (ilog2 ?r) (- 1022) = ?e"
    proof (cases "- 1022 \<le> ilog2 x")
      case True
      then have ex: "?e = ilog2 x" by simp
      have "power_int 2 (ilog2 x) < (power_int 2 (ilog2 ?r + 1) :: rat)"
        using roundMagnitude_lower[OF x True] ilog2_bounds(2)[OF rpos] by simp
      then have "ilog2 x \<le> ilog2 ?r" by (simp only: pow2_less_iff)
      then show ?thesis using up ex True by simp
    next
      case False
      then show ?thesis using up by simp
    qed
    then have u: "ulp ?r = ulp x" by (simp add: ulp_def)
    have "?r / ulp x = of_int ?n" by (subst r) simp
    then have "?r / ulp ?r = of_int ?n" by (simp only: u)
    then have "roundTiesToEven (?r / ulp ?r) = ?n" by (simp only: roundTiesToEven_of_int)
    then have "roundMagnitude ?r = of_int ?n * ulp x"
      using rpos u by (simp add: roundMagnitude_def[of ?r])
    then show ?thesis using r by simp
  qed
qed

section \<open>Evaluating a rounding\<close>

lemma makeNumber_at:
  assumes u: "u = power_int 2 (e - 52)"
      and lo: "4503599627370496 * u \<le> q" and hi: "q < 9007199254740992 * u"
      and e: "- 1022 \<le> e" "e < 1023"
  shows "makeNumber s q = Finite ((if s then - 1 else 1) * (of_int (roundTiesToEven (q / u)) * u))"
proof -
  have upos: "0 < u" by (simp add: u)
  then have "0 < 4503599627370496 * u" by simp
  then have qpos: "0 < q" using lo by linarith
  have p52: "power_int 2 e = 4503599627370496 * u" unfolding u using pow2_split52[of e] by simp
  have p53: "power_int 2 (e + 1) = 9007199254740992 * u" unfolding u using pow2_split53[of e] by simp
  have il: "ilog2 q = e" by (rule ilog2_unique[OF qpos]) (simp_all only: p52 p53 lo hi)
  then have ul: "ulp q = u" using e by (simp add: ulp_def u)
  have rm: "roundMagnitude q = of_int (roundTiesToEven (q / u)) * u"
    using qpos ul by (simp add: roundMagnitude_def)
  have "power_int 2 e \<le> roundMagnitude q" using roundMagnitude_lower[OF qpos] il e by simp
  then have pos: "roundMagnitude q \<noteq> 0" using pow2_pos[of e] by linarith
  have e1: "e + 1 \<le> 1024" using e by simp
  have "max (ilog2 q) (- 1022) + 1 = e + 1" using il e by simp
  then have "roundMagnitude q \<le> power_int 2 (e + 1)" using roundMagnitude_upper[OF qpos] by simp
  also have "\<dots> \<le> power_int 2 1023" by (rule pow2_mono) (use e in linarith)
  also have "\<dots> < power_int 2 1024" by (subst pow2_less_iff) simp
  finally have nover: "\<not> power_int 2 1024 \<le> roundMagnitude q" by (simp only: not_le)
  show ?thesis
    unfolding makeNumber_def Let_def
    by (simp only: nover pos if_False) (simp add: rm)
qed

lemma floor_rat_numeral_divide:
  "\<lfloor>(numeral a :: rat) / numeral b\<rfloor> = numeral a div numeral b"
  by (metis floor_divide_of_int_eq of_int_numeral)

lemma makeNumber_Ints:
  assumes "q \<in> \<int>" "0 < q" "q < 9007199254740992"
  shows "makeNumber s q = Finite (if s then - q else q)"
proof -
  from assms(1) obtain n where n: "q = of_int n" by (auto elim: Ints_cases)
  define e where "e = ilog2 q"
  define u :: rat where "u = power_int 2 (e - 52)"
  have b: "power_int 2 e \<le> q" "q < power_int 2 (e + 1)"
    unfolding e_def using ilog2_bounds[OF assms(2)] by auto
  have "1 \<le> n" using assms(2) n by simp
  then have "power_int 2 0 \<le> q" using n by simp
  then have "power_int (2::rat) 0 < power_int 2 (e + 1)" using b(2) by linarith
  then have e0: "0 \<le> e" by (simp only: pow2_less_iff)
  have "q < power_int 2 53" using assms(3) by simp
  then have "power_int (2::rat) e < power_int 2 53" using b(1) by linarith
  then have e52: "e \<le> 52" by (simp only: pow2_less_iff)
  have lo: "4503599627370496 * u \<le> q"
    using b(1) pow2_split52[of e] by (simp add: u_def)
  have hi: "q < 9007199254740992 * u"
    using b(2) pow2_split53[of e] by (simp add: u_def)
  have "u * power_int 2 (52 - e) = power_int 2 ((e - 52) + (52 - e))"
    unfolding u_def by (rule power_int_add[symmetric]) simp
  then have "u * power_int 2 (int (nat (52 - e))) = 1" using e52 by simp
  then have inv: "u * 2 ^ nat (52 - e) = 1" by (simp only: power_int_of_nat)
  have upos: "u \<noteq> 0" by (simp add: u_def)
  have "q / u = q * 2 ^ nat (52 - e)"
    using inv upos by (simp add: field_simps)
  also have "\<dots> = of_int (n * 2 ^ nat (52 - e))" by (simp add: n)
  finally have "roundTiesToEven (q / u) = n * 2 ^ nat (52 - e)"
    by (simp only: roundTiesToEven_of_int)
  then have "of_int (roundTiesToEven (q / u)) * u = of_int n * (u * 2 ^ nat (52 - e))"
    by (simp add: mult_ac)
  then have r: "of_int (roundTiesToEven (q / u)) * u = q" by (simp only: inv n mult_1_right)
  have "makeNumber s q = Finite ((if s then - 1 else 1) * (of_int (roundTiesToEven (q / u)) * u))"
    by (rule makeNumber_at[OF u_def lo hi]) (use e0 e52 in simp_all)
  then show ?thesis by (simp add: r)
qed


lemma literal_0_00001: "literal (1 / 100000) = Finite (5902958103587057 / 590295810358705651712)"
  unfolding literal_def
  using makeNumber_at[of "1 / 2 ^ 69" "- 17" "1 / 100000" False]
  by (simp add: roundTiesToEven_def Let_def floor_rat_numeral_divide)


lemma multiply_0_00001:
  "multiply (Finite (5902958103587057 / 590295810358705651712)) (Finite 100000000)
     = Finite (8796093022208001 / 8796093022208)"
  unfolding multiply_def
  using makeNumber_at[of "1 / 2 ^ 43" "9" "5902958103587057 / 590295810358705651712 * 100000000" False]
  by (simp add: roundTiesToEven_def Let_def floor_rat_numeral_divide)

lemma divide_0_00001:
  "divide_number (Finite (8796093022208001 / 8796093022208)) (Finite 1000)
     = Finite (4503599627370497 / 4503599627370496)"
  unfolding divide_number_def
  using makeNumber_at[of "1 / 2 ^ 52" "0" "8796093022208001 / 8796093022208 / 1000" False]
  by (simp add: roundTiesToEven_def Let_def floor_rat_numeral_divide)

lemma literal_0_29: "literal (29 / 100) = Finite (5224175567749775 / 18014398509481984)"
  unfolding literal_def
  using makeNumber_at[of "1 / 2 ^ 54" "- 2" "29 / 100" False]
  by (simp add: roundTiesToEven_def Let_def floor_rat_numeral_divide)

lemma multiply_0_29:
  "multiply (Finite (5224175567749775 / 18014398509481984)) (Finite 100000000)
     = Finite (7784628223999999 / 268435456)"
  unfolding multiply_def
  using makeNumber_at[of "1 / 2 ^ 28" "24" "5224175567749775 / 18014398509481984 * 100000000" False]
  by (simp add: roundTiesToEven_def Let_def floor_rat_numeral_divide)

lemma add_0_0_29:
  "add (Finite 0) (Finite (7784628223999999 / 268435456)) = Finite (7784628223999999 / 268435456)"
  unfolding add_def
  using makeNumber_at[of "1 / 2 ^ 28" "24" "7784628223999999 / 268435456" False]
  by (simp add: roundTiesToEven_def Let_def floor_rat_numeral_divide)

lemma add_0_29_1:
  "add (Finite (7784628223999999 / 268435456)) (Finite 100000000) = Finite 129000000"
  unfolding add_def
  using makeNumber_at[of "1 / 2 ^ 26" "26" "7784628223999999 / 268435456 + 100000000" False]
  by (simp add: roundTiesToEven_def Let_def floor_rat_numeral_divide)

lemma multiply_1: "multiply (Finite 1) (Finite 100000000) = Finite 100000000"
  by (simp add: multiply_def makeNumber_Ints)

lemma regtest_listUnspent:
  "rpc_listUnspent (client regtestWallet) minconf maxconf addresses (node (start n))
     = (Inr (unspent n), n)"
  by (simp add: regtestWallet_def new_BitcoinCoreWallet_def regtestClient_def start_def)

lemma fundedNode_utxos:
  "map toUTXO (unspent fundedNode)
     = [\<lparr>txid = ''aa'', vout = Finite 0, valueSatoshis = Finite 50000000, scriptPubKey = ''0014aa''\<rparr>,
        \<lparr>txid = ''bb'', vout = Finite 1, valueSatoshis = Finite 25000000, scriptPubKey = ''0014bb''\<rparr>,
        \<lparr>txid = ''cc'', vout = Finite 0, valueSatoshis = Finite 12500000, scriptPubKey = ''0014cc''\<rparr>]"
  by (simp add: fundedNode_def toUTXO_def multiply_def makeNumber_Ints)

section \<open>The calls, case by case\<close>

lemma connectWallet_failure:
  assumes "rpc_getWalletInfo (client w) (node s) = (Inl (Error message), n')"
  shows "connectWallet w s
           = (Inl (Error (''Failed to connect to Bitcoin Core: '' @ message)), s\<lparr>node := n'\<rparr>)"
  using assms by (simp add: connectWallet_def)

lemma getAddress_first_listed:
  assumes "rpc_listReceivedByAddress (client w) [] (node s) = (Inr (a # rest), n')"
      and "received_address a \<noteq> []"
  shows "getAddress w s = (Inr (received_address a), s\<lparr>node := n'\<rparr>)"
  using assms by (simp add: getAddress_def)

lemma getAddress_none_listed:
  assumes "rpc_listReceivedByAddress (client w) [] (node s) = (Inr [], n')"
      and "rpc_getNewAddress (client w) ''primary'' ''bech32'' n' = (Inr newAddress, n'')"
  shows "getAddress w s
           = (Inr newAddress,
              \<lparr>node = n'', console = console s @ [console_log [Text ''Taproot Address:'', Text newAddress]]\<rparr>)"
  using assms by (simp add: getAddress_def)

lemma signPsbt_complete:
  assumes "rpc_walletProcessPsbt (client w) (hexToBase64 B psbtHex) (node s) = (Inr signedPsbt, n')"
      and "complete signedPsbt"
  shows "signPsbt B w psbtHex s
           = (Inr (base64ToHex B (psbt signedPsbt)),
              \<lparr>node = n',
               console = console s @
                 [console_log [Text ''Signing PSBT with hex:'', Text psbtHex],
                  console_log [Text ''Signed PSBT:'', Processed signedPsbt]]\<rparr>)"
  using assms by (simp add: signPsbt_def)

lemma signPsbt_failure:
  assumes "rpc_walletProcessPsbt (client w) (hexToBase64 B psbtHex) (node s) = (Inl e, n')"
  shows "fst (signPsbt B w psbtHex s) = Inl e"
  using assms by (simp add: signPsbt_def)

section \<open>The signing loop\<close>

lemma signPsbts_loop_success:
  "signPsbts_loop B w acc xs s = (Inr ys, s') \<Longrightarrow>
     \<exists>zs. ys = acc @ zs \<and> length zs = length xs
        \<and> (\<forall>i<length xs. fst (signPsbt B w (xs ! i) (worldAfter B w (take i xs) s)) = Inr (zs ! i))
        \<and> s' = worldAfter B w xs s"
proof (induction xs arbitrary: acc s)
  case Nil
  then show ?case by simp
next
  case (Cons x xs)
  from Cons.prems obtain y s1 where step: "signPsbt B w x s = (Inr y, s1)"
    and rest: "signPsbts_loop B w (acc @ [y]) xs s1 = (Inr ys, s')"
    by (auto split: prod.splits sum.splits)
  from Cons.IH[OF rest] obtain zs where zs: "ys = (acc @ [y]) @ zs" "length zs = length xs"
    "\<forall>i<length xs. fst (signPsbt B w (xs ! i) (worldAfter B w (take i xs) s1)) = Inr (zs ! i)"
    "s' = worldAfter B w xs s1" by blast
  have "\<forall>i<length (x # xs).
          fst (signPsbt B w ((x # xs) ! i) (worldAfter B w (take i (x # xs)) s)) = Inr ((y # zs) ! i)"
  proof (intro allI impI)
    fix i assume "i < length (x # xs)"
    then show "fst (signPsbt B w ((x # xs) ! i) (worldAfter B w (take i (x # xs)) s)) = Inr ((y # zs) ! i)"
      using zs(3) step by (cases i) simp_all
  qed
  then show ?case using zs step by (intro exI[of _ "y # zs"]) simp
qed

lemma signPsbts_loop_failure:
  "k < length xs \<Longrightarrow>
   (\<forall>j<k. \<exists>y. fst (signPsbt B w (xs ! j) (worldAfter B w (take j xs) s)) = Inr y) \<Longrightarrow>
   fst (signPsbt B w (xs ! k) (worldAfter B w (take k xs) s)) = Inl e \<Longrightarrow>
   signPsbts_loop B w acc xs s = (Inl e, worldAfter B w (take (Suc k) xs) s)"
proof (induction xs arbitrary: acc s k)
  case Nil
  then show ?case by simp
next
  case (Cons x xs)
  show ?case
  proof (cases k)
    case 0
    then have "fst (signPsbt B w x s) = Inl e" using Cons.prems(3) by simp
    then show ?thesis using 0 by (cases "signPsbt B w x s") simp
  next
    case (Suc k')
    from Cons.prems(2)[rule_format, of 0] Suc obtain y where "fst (signPsbt B w x s) = Inr y" by auto
    then obtain s1 where step: "signPsbt B w x s = (Inr y, s1)" by (cases "signPsbt B w x s") simp
    have k': "k' < length xs" using Cons.prems(1) Suc by simp
    have ok: "\<forall>j<k'. \<exists>y. fst (signPsbt B w (xs ! j) (worldAfter B w (take j xs) s1)) = Inr y"
    proof (intro allI impI)
      fix j assume "j < k'"
      then have "Suc j < k" using Suc by simp
      from Cons.prems(2)[rule_format, OF this] show
        "\<exists>y. fst (signPsbt B w (xs ! j) (worldAfter B w (take j xs) s1)) = Inr y"
        using step by simp
    qed
    have bad: "fst (signPsbt B w (xs ! k') (worldAfter B w (take k' xs) s1)) = Inl e"
      using Cons.prems(3) Suc step by simp
    from Cons.IH[OF k' ok bad, of "acc @ [y]"] show ?thesis using step Suc by simp
  qed
qed

lemma signPsbts_loop_all_succeed:
  "(\<forall>i<length xs. \<exists>y. fst (signPsbt B w (xs ! i) (worldAfter B w (take i xs) s)) = Inr y) \<Longrightarrow>
   \<exists>zs. signPsbts_loop B w acc xs s = (Inr (acc @ zs), worldAfter B w xs s)"
proof (induction xs arbitrary: acc s)
  case Nil
  then show ?case by simp
next
  case (Cons x xs)
  from Cons.prems[rule_format, of 0] obtain y where "fst (signPsbt B w x s) = Inr y" by auto
  then obtain s1 where step: "signPsbt B w x s = (Inr y, s1)" by (cases "signPsbt B w x s") simp
  have "\<forall>i<length xs. \<exists>y. fst (signPsbt B w (xs ! i) (worldAfter B w (take i xs) s1)) = Inr y"
  proof (intro allI impI)
    fix i assume "i < length xs"
    then have "Suc i < length (x # xs)" by simp
    from Cons.prems[rule_format, OF this] show
      "\<exists>y. fst (signPsbt B w (xs ! i) (worldAfter B w (take i xs) s1)) = Inr y"
      using step by simp
  qed
  from Cons.IH[OF this, of "acc @ [y]"] obtain zs where
    "signPsbts_loop B w (acc @ [y]) xs s1 = (Inr ((acc @ [y]) @ zs), worldAfter B w xs s1)" by blast
  then show ?case using step by (intro exI[of _ "y # zs"]) simp
qed

lemma regtest_signPsbt:
  "signPsbt plainBuffer regtestWallet psbtHex s
     = (if psbtHex = [] then
          (Inl (Error ''TX decode failed''),
           \<lparr>node = node s,
            console = console s @ [console_log [Text ''Signing PSBT with hex:'', Text psbtHex]]\<rparr>)
        else
          (Inr psbtHex,
           \<lparr>node = node s,
            console = console s @
              [console_log [Text ''Signing PSBT with hex:'', Text psbtHex],
               console_log [Text ''Signed PSBT:'', Processed \<lparr>psbt = psbtHex, complete = False\<rparr>],
               console_error [Text ''PSBT signing incomplete'']]\<rparr>))"
  by (simp add: signPsbt_def regtestWallet_def new_BitcoinCoreWallet_def regtestClient_def
      plainBuffer_def Let_def)

section \<open>getUtxos\<close>

text \<open>
  C1. The node lists one output of 0.29 coin, which is 29000000 satoshis, and the caller
  asks for 29000000: the one-element prefix covers the target exactly, yet \<open>getUtxos\<close>
  returns the empty sequence. The value it adds up is the binary64 product of the amount
  and 1e8, here 28999999.999999996, so the running total stays below the target. With a
  second output of one coin and a target of 129000000 both outputs are returned, while the
  values of the two outputs returned add up, exactly, to less than the target.
\<close>

theorem getUtxos_misses_exact_cover:
  "map unspent_amount (unspent oneOutputNode) = [literal (29 / 100)]
   \<and> (29 / 100 :: rat) * 100000000 = 29000000
   \<and> fst (getUtxos regtestWallet ''bcrt1qprimary'' (Some (Finite 29000000)) (start oneOutputNode)) = Inr []
   \<and> fst (getUtxos regtestWallet ''bcrt1qprimary'' None (start oneOutputNode))
        = Inr [\<lparr>txid = ''dd'', vout = Finite 0,
                 valueSatoshis = Finite (29000000 - 1 / 2 ^ 28), scriptPubKey = ''0014dd''\<rparr>]
   \<and> fst (getUtxos regtestWallet ''bcrt1qprimary'' (Some (Finite 129000000)) (start twoOutputNode))
        = Inr [\<lparr>txid = ''dd'', vout = Finite 0,
                 valueSatoshis = Finite (29000000 - 1 / 2 ^ 28), scriptPubKey = ''0014dd''\<rparr>,
               \<lparr>txid = ''ee'', vout = Finite 0,
                 valueSatoshis = Finite 100000000, scriptPubKey = ''0014ee''\<rparr>]
   \<and> (29000000 - 1 / 2 ^ 28 :: rat) + 100000000 < 129000000"
  by (simp add: getUtxos_def regtest_listUnspent oneOutputNode_def twoOutputNode_def toUTXO_def
      literal_0_29 multiply_0_29 multiply_1 add_0_0_29 add_0_29_1 Let_def)

text \<open>
  C9. The target amount is tested for truthiness, so a target of 0 is handled exactly as an
  absent amount: the call returns the full converted listing, not the empty prefix that
  would already cover a zero target.
\<close>

theorem getUtxos_zero_amount_is_absent:
  "getUtxos w address (Some (Finite 0)) s = getUtxos w address None s
   \<and> (rpc_listUnspent (client w) (Finite 0) (Finite 9999999) [address] (node s) = (Inr utxos, n')
        \<longrightarrow> getUtxos w address (Some (Finite 0)) s = (Inr (map toUTXO utxos), s\<lparr>node := n'\<rparr>))"
  by (simp add: getUtxos_def split: prod.splits sum.splits)

theorem getUtxos_zero_amount_is_absent_witness:
  "getUtxos regtestWallet ''bcrt1qprimary'' (Some (Finite 0)) (start fundedNode)
     = getUtxos regtestWallet ''bcrt1qprimary'' None (start fundedNode)
   \<and> fst (getUtxos regtestWallet ''bcrt1qprimary'' (Some (Finite 0)) (start fundedNode))
     = Inr [\<lparr>txid = ''aa'', vout = Finite 0, valueSatoshis = Finite 50000000, scriptPubKey = ''0014aa''\<rparr>,
            \<lparr>txid = ''bb'', vout = Finite 1, valueSatoshis = Finite 25000000, scriptPubKey = ''0014bb''\<rparr>,
            \<lparr>txid = ''cc'', vout = Finite 0, valueSatoshis = Finite 12500000, scriptPubKey = ''0014cc''\<rparr>]"
proof -
  note th = getUtxos_zero_amount_is_absent
    [of regtestWallet "''bcrt1qprimary''" "start fundedNode" "unspent fundedNode" fundedNode]
  from th have same: "getUtxos regtestWallet ''bcrt1qprimary'' (Some (Finite 0)) (start fundedNode)
     = getUtxos regtestWallet ''bcrt1qprimary'' None (start fundedNode)" by (rule conjunct1)
  from th regtest_listUnspent
  have full: "getUtxos regtestWallet ''bcrt1qprimary'' (Some (Finite 0)) (start fundedNode)
     = (Inr (map toUTXO (unspent fundedNode)), start fundedNode\<lparr>node := fundedNode\<rparr>)" by blast
  show ?thesis
  proof (intro conjI)
    show "getUtxos regtestWallet ''bcrt1qprimary'' (Some (Finite 0)) (start fundedNode)
     = getUtxos regtestWallet ''bcrt1qprimary'' None (start fundedNode)" by (rule same)
  qed (simp add: full fundedNode_utxos)
qed



section \<open>Signing\<close>

text \<open>
  C2. When the node answers \<open>walletProcessPsbt\<close> with \<open>complete = false\<close>, \<open>signPsbt\<close>
  raises nothing: it writes "PSBT signing incomplete" to the error console and returns the
  node's PSBT re-encoded from base64 to hex, as it does for a complete one.
\<close>

theorem signPsbt_incomplete_still_returns:
  assumes "rpc_walletProcessPsbt (client w) (hexToBase64 B psbtHex) (node s) = (Inr signedPsbt, n')"
      and "\<not> complete signedPsbt"
  shows "signPsbt B w psbtHex s
           = (Inr (base64ToHex B (psbt signedPsbt)),
              \<lparr>node = n',
               console = console s @
                 [console_log [Text ''Signing PSBT with hex:'', Text psbtHex],
                  console_log [Text ''Signed PSBT:'', Processed signedPsbt],
                  console_error [Text ''PSBT signing incomplete'']]\<rparr>)"
  using assms by (simp add: signPsbt_def)

theorem signPsbt_incomplete_still_returns_witness:
  "signPsbt plainBuffer regtestWallet ''70736274ff'' (start emptyNode)
     = (Inr ''70736274ff'',
        \<lparr>node = emptyNode,
         console = [console_log [Text ''Signing PSBT with hex:'', Text ''70736274ff''],
                    console_log [Text ''Signed PSBT:'',
                                 Processed \<lparr>psbt = ''70736274ff'', complete = False\<rparr>],
                    console_error [Text ''PSBT signing incomplete'']]\<rparr>)"
proof -
  have call: "rpc_walletProcessPsbt (client regtestWallet) (hexToBase64 plainBuffer ''70736274ff'')
      (node (start emptyNode)) = (Inr \<lparr>psbt = ''70736274ff'', complete = False\<rparr>, emptyNode)"
    by (simp add: regtestWallet_def new_BitcoinCoreWallet_def regtestClient_def start_def plainBuffer_def)
  have "\<not> complete \<lparr>psbt = ''70736274ff'', complete = False\<rparr>" by simp
  from signPsbt_incomplete_still_returns[OF call this] show ?thesis
    by (simp add: plainBuffer_def start_def)
qed

text \<open>
  C3. \<open>signPsbts\<close> signs one element after the other. When every call succeeds, each in
  the world the earlier calls have left, the batch succeeds: the result has the length of
  the input, its i-th element is what \<open>signPsbt\<close> returns for the i-th input, and the
  final world is the one after all calls; a successful batch is always of this form. When
  the k-th call is the first to fail, the batch fails with that error alone: the results of
  the calls before it are not part of what the caller gets, and no later element is sent
  to the node.
\<close>

theorem signPsbts_sequential:
  "((\<forall>i<length psbtsHexes.
        \<exists>y. fst (signPsbt B w (psbtsHexes ! i) (worldAfter B w (take i psbtsHexes) s)) = Inr y) \<longrightarrow>
      (\<exists>signed. signPsbts B w psbtsHexes s = (Inr signed, worldAfter B w psbtsHexes s)
         \<and> length signed = length psbtsHexes
         \<and> (\<forall>i<length psbtsHexes.
               fst (signPsbt B w (psbtsHexes ! i) (worldAfter B w (take i psbtsHexes) s))
                 = Inr (signed ! i))))
   \<and> (signPsbts B w psbtsHexes s = (Inr signed, s') \<longrightarrow>
      length signed = length psbtsHexes
      \<and> (\<forall>i<length psbtsHexes.
            fst (signPsbt B w (psbtsHexes ! i) (worldAfter B w (take i psbtsHexes) s)) = Inr (signed ! i))
      \<and> s' = worldAfter B w psbtsHexes s)
   \<and> (k < length psbtsHexes
      \<and> (\<forall>j<k. \<exists>y. fst (signPsbt B w (psbtsHexes ! j) (worldAfter B w (take j psbtsHexes) s)) = Inr y)
      \<and> fst (signPsbt B w (psbtsHexes ! k) (worldAfter B w (take k psbtsHexes) s)) = Inl e
      \<longrightarrow> signPsbts B w psbtsHexes s = (Inl e, worldAfter B w (take (Suc k) psbtsHexes) s))"
proof (intro conjI impI)
  assume all: "\<forall>i<length psbtsHexes.
        \<exists>y. fst (signPsbt B w (psbtsHexes ! i) (worldAfter B w (take i psbtsHexes) s)) = Inr y"
  from signPsbts_loop_all_succeed[OF this, of "[]"] obtain zs where
    zs: "signPsbts_loop B w [] psbtsHexes s = (Inr zs, worldAfter B w psbtsHexes s)" by auto
  from signPsbts_loop_success[OF zs]
  have "length zs = length psbtsHexes
      \<and> (\<forall>i<length psbtsHexes.
            fst (signPsbt B w (psbtsHexes ! i) (worldAfter B w (take i psbtsHexes) s)) = Inr (zs ! i))"
    by auto
  with zs show "\<exists>signed. signPsbts B w psbtsHexes s = (Inr signed, worldAfter B w psbtsHexes s)
         \<and> length signed = length psbtsHexes
         \<and> (\<forall>i<length psbtsHexes.
               fst (signPsbt B w (psbtsHexes ! i) (worldAfter B w (take i psbtsHexes) s))
                 = Inr (signed ! i))"
    unfolding signPsbts_def by blast
next
  assume "signPsbts B w psbtsHexes s = (Inr signed, s')"
  then have "signPsbts_loop B w [] psbtsHexes s = (Inr signed, s')" by (simp add: signPsbts_def)
  from signPsbts_loop_success[OF this]
  show "length signed = length psbtsHexes"
    and "\<forall>i<length psbtsHexes.
            fst (signPsbt B w (psbtsHexes ! i) (worldAfter B w (take i psbtsHexes) s)) = Inr (signed ! i)"
    and "s' = worldAfter B w psbtsHexes s"
    by auto
next
  assume a: "k < length psbtsHexes
      \<and> (\<forall>j<k. \<exists>y. fst (signPsbt B w (psbtsHexes ! j) (worldAfter B w (take j psbtsHexes) s)) = Inr y)
      \<and> fst (signPsbt B w (psbtsHexes ! k) (worldAfter B w (take k psbtsHexes) s)) = Inl e"
  then show "signPsbts B w psbtsHexes s = (Inl e, worldAfter B w (take (Suc k) psbtsHexes) s)"
    unfolding signPsbts_def by (intro signPsbts_loop_failure) auto
qed

theorem signPsbts_sequential_witness:
  "fst (signPsbts plainBuffer regtestWallet [''70'', ''71''] (start emptyNode)) = Inr [''70'', ''71'']
   \<and> fst (signPsbts plainBuffer regtestWallet [''70'', '''', ''71''] (start emptyNode))
        = Inl (Error ''TX decode failed'')"
proof
  let ?xs = "[''70'', ''71'']"
  have all: "\<forall>i<length ?xs. \<exists>y. fst (signPsbt plainBuffer regtestWallet (?xs ! i)
       (worldAfter plainBuffer regtestWallet (take i ?xs) (start emptyNode))) = Inr y"
    by (simp add: regtest_signPsbt less_Suc_eq)
  from signPsbts_sequential[of ?xs plainBuffer regtestWallet "start emptyNode"
      "[]" "start emptyNode" 0 "Error []"] all
  obtain signed where signed:
    "signPsbts plainBuffer regtestWallet ?xs (start emptyNode)
       = (Inr signed, worldAfter plainBuffer regtestWallet ?xs (start emptyNode))"
    "length signed = length ?xs"
    "\<forall>i<length ?xs. fst (signPsbt plainBuffer regtestWallet (?xs ! i)
       (worldAfter plainBuffer regtestWallet (take i ?xs) (start emptyNode))) = Inr (signed ! i)"
    by blast
  from signed(3)[rule_format, of 0] have s0: "signed ! 0 = ''70''" by (simp add: regtest_signPsbt)
  from signed(3)[rule_format, of 1] have s1: "signed ! 1 = ''71''" by (simp add: regtest_signPsbt)
  have "signed = [''70'', ''71'']"
  proof (rule nth_equalityI)
    show "length signed = length [''70'', ''71'']" using signed(2) by simp
    fix i assume "i < length signed"
    then have "i = 0 \<or> i = 1" using signed(2) by auto
    then show "signed ! i = [''70'', ''71''] ! i" using s0 s1 by auto
  qed
  then show "fst (signPsbts plainBuffer regtestWallet [''70'', ''71''] (start emptyNode)) = Inr [''70'', ''71'']"
    using signed(1) by simp
next
  have k: "(1::nat) < length [''70'', '''', ''71'']" by simp
  have before: "\<forall>j<1. \<exists>y. fst (signPsbt plainBuffer regtestWallet ([''70'', '''', ''71''] ! j)
       (worldAfter plainBuffer regtestWallet (take j [''70'', '''', ''71'']) (start emptyNode))) = Inr y"
    by (simp add: regtest_signPsbt)
  have fails: "fst (signPsbt plainBuffer regtestWallet ([''70'', '''', ''71''] ! 1)
       (worldAfter plainBuffer regtestWallet (take 1 [''70'', '''', ''71'']) (start emptyNode)))
       = Inl (Error ''TX decode failed'')"
    by (simp add: regtest_signPsbt)
  from signPsbts_sequential[of "[''70'', '''', ''71'']" plainBuffer regtestWallet "start emptyNode"
      "[]" "start emptyNode" 1 "Error ''TX decode failed''"] k before fails
  have "signPsbts plainBuffer regtestWallet [''70'', '''', ''71''] (start emptyNode)
     = (Inl (Error ''TX decode failed''),
        worldAfter plainBuffer regtestWallet (take (Suc 1) [''70'', '''', ''71'']) (start emptyNode))"
    by blast
  then show "fst (signPsbts plainBuffer regtestWallet [''70'', '''', ''71''] (start emptyNode))
        = Inl (Error ''TX decode failed'')" by simp
qed

section \<open>Fees\<close>

text \<open>
  C5, as the claim states it, fails on its example: the node's rate 0.00001 coin per kvB
  does not come out as 1.0. The literal is not a binary64 value, and the product with 1e8
  and the quotient by 1000 are each rounded.
\<close>

theorem convert_0_00001_is_not_1:
  "convertBtcKvBToSatoshiPerByte (literal (1 / 100000)) \<noteq> Finite 1"
proof -
  have "convertBtcKvBToSatoshiPerByte (literal (1 / 100000)) = Finite (4503599627370497 / 4503599627370496)"
    unfolding convertBtcKvBToSatoshiPerByte_def Let_def
    by (simp only: literal_0_00001 multiply_0_00001 divide_0_00001)
  then show ?thesis by simp
qed

text \<open>
  C5, amended. \<open>getNetworkFees\<close> asks the node for its 6-block estimate and converts the
  rate with one binary64 multiplication by 1e8 and one binary64 division by 1000; the four
  tiers \<open>halfHourFee\<close>, \<open>hourFee\<close>, \<open>economyFee\<close> and \<open>minimumFee\<close> all carry this value
  and \<open>fastestFee\<close> is the constant 1000. The rate 0.00001 is converted to
  1.0000000000000002, the binary64 value next above 1.
\<close>

theorem getNetworkFees_conversion:
  assumes "rpc_estimateSmartFee (client w) (Finite 6) (node s) = (Inr result, n')"
  shows "fst (getNetworkFees w s)
           = Inr \<lparr>fastestFee = Finite 1000,
                  halfHourFee = divide_number (multiply (toNumber (feerate result)) (Finite 100000000)) (Finite 1000),
                  hourFee = divide_number (multiply (toNumber (feerate result)) (Finite 100000000)) (Finite 1000),
                  economyFee = divide_number (multiply (toNumber (feerate result)) (Finite 100000000)) (Finite 1000),
                  minimumFee = divide_number (multiply (toNumber (feerate result)) (Finite 100000000)) (Finite 1000)\<rparr>
         \<and> convertBtcKvBToSatoshiPerByte (literal (1 / 100000)) = Finite (1 + 1 / 2 ^ 52)"
proof
  show "fst (getNetworkFees w s)
           = Inr \<lparr>fastestFee = Finite 1000,
                  halfHourFee = divide_number (multiply (toNumber (feerate result)) (Finite 100000000)) (Finite 1000),
                  hourFee = divide_number (multiply (toNumber (feerate result)) (Finite 100000000)) (Finite 1000),
                  economyFee = divide_number (multiply (toNumber (feerate result)) (Finite 100000000)) (Finite 1000),
                  minimumFee = divide_number (multiply (toNumber (feerate result)) (Finite 100000000)) (Finite 1000)\<rparr>"
    using assms by (simp add: getNetworkFees_def convertBtcKvBToSatoshiPerByte_def Let_def)
  have "convertBtcKvBToSatoshiPerByte (literal (1 / 100000)) = Finite (4503599627370497 / 4503599627370496)"
    unfolding convertBtcKvBToSatoshiPerByte_def Let_def
    by (simp only: literal_0_00001 multiply_0_00001 divide_0_00001)
  then show "convertBtcKvBToSatoshiPerByte (literal (1 / 100000)) = Finite (1 + 1 / 2 ^ 52)"
    by simp
qed

theorem getNetworkFees_conversion_witness:
  "fst (getNetworkFees regtestWallet (start emptyNode))
     = Inr \<lparr>fastestFee = Finite 1000,
            halfHourFee = Finite (4503599627370497 / 4503599627370496),
            hourFee = Finite (4503599627370497 / 4503599627370496),
            economyFee = Finite (4503599627370497 / 4503599627370496),
            minimumFee = Finite (4503599627370497 / 4503599627370496)\<rparr>"
proof -
  have call: "rpc_estimateSmartFee (client regtestWallet) (Finite 6) (node (start emptyNode))
      = (Inr \<lparr>feerate = Some (literal (1 / 100000))\<rparr>, emptyNode)"
    by (simp add: regtestWallet_def new_BitcoinCoreWallet_def regtestClient_def start_def)
  from getNetworkFees_conversion[OF call] show ?thesis
    by (simp add: literal_0_00001 multiply_0_00001 divide_0_00001)
qed

section \<open>Connecting and choosing an address\<close>

text \<open>
  C7. The contract documents \<open>connectWallet\<close> as resolving to the wallet-provider instance.
  The adapter resolves to the node's answer to \<open>getWalletInfo\<close> instead: no call returns
  the instance, and on the regtest node the call returns the wallet-info object.
\<close>

theorem connectWallet_returns_wallet_info:
  "fst (connectWallet w s) \<noteq> Inr (This w)
   \<and> connectWallet regtestWallet (start emptyNode)
       = (Inr (Response \<lparr>walletname = ''goat'', txcount = Finite 0\<rparr>),
          \<lparr>node = emptyNode, console = [console_log [Info \<lparr>walletname = ''goat'', txcount = Finite 0\<rparr>]]\<rparr>)"
  by (auto simp: connectWallet_def regtestWallet_def new_BitcoinCoreWallet_def regtestClient_def
      start_def split: prod.splits sum.splits error.splits)

text \<open>
  C4. \<open>getAddress\<close> does not look at labels. On a node whose first funded address is
  labelled "savings" and whose second is labelled "primary", it returns the first.
\<close>

theorem getAddress_ignores_label:
  "fst (getAddress regtestWallet (start fundedNode)) = Inr ''bcrt1qsavings''
   \<and> map (\<lambda>a. (received_address a, received_label a)) (funded fundedNode)
       = [(''bcrt1qsavings'', ''savings''), (''bcrt1qprimary'', ''primary'')]"
  by (simp add: getAddress_def regtestWallet_def new_BitcoinCoreWallet_def regtestClient_def
      start_def fundedNode_def)

text \<open>
  C8. On a wallet that has received nothing, two successive calls of \<open>getAddress\<close>, with
  the list of funded addresses the same before and after, return two different addresses:
  each call finds the list empty and asks the node for a new address.
\<close>

theorem getAddress_twice_differs:
  "fst (getAddress regtestWallet (start emptyNode)) = Inr ''bcrt1qnew''
   \<and> fst (getAddress regtestWallet (snd (getAddress regtestWallet (start emptyNode)))) = Inr ''bcrt1qnewx''
   \<and> funded (node (snd (getAddress regtestWallet (start emptyNode)))) = funded emptyNode"
  by (simp add: getAddress_def regtestWallet_def new_BitcoinCoreWallet_def regtestClient_def
      start_def emptyNode_def freshAddress_def)

section \<open>The network an adapter reports\<close>

text \<open>
  C10. \<open>getNetwork\<close> is the constant \<open>Network.RETEST\<close> (the string "regtest") for
  every adapter, whatever network string the constructor was given; an adapter built
  with network "mainnet" reports regtest too.
\<close>

theorem getNetwork_always_regtest:
  "getNetwork (new_BitcoinCoreWallet new_Client walletName host port username password network) = RETEST
   \<and> networkName (getNetwork
         (new_BitcoinCoreWallet new_Client walletName host port username password ''mainnet''))
       = ''regtest''"
  by (simp add: getNetwork_def)

theorem getNetwork_always_regtest_witness:
  "getNetwork regtestWallet = RETEST \<and> networkName (getNetwork regtestWallet) = ''regtest''"
  using getNetwork_always_regtest
    [of regtestClient "''goat''" "''127.0.0.1''" "Finite 18443" "''user''" "''pass''" "''mainnet''"]
  by (simp add: regtestWallet_def)

end
